theory Spec2Isabelle
  imports Complex_Main "HOL-Library.Log_Nat"
begin

section \<open>Python values and the string operations the tracker uses\<close>

text \<open>
  A Python \<open>str\<close> is modelled by \<^typ>\<open>string\<close>; a \<^typ>\<open>char\<close> stands for the code point
  of the same number, so the strings of the model are those over the code points 0 to 255.
  The classifications below are the ones \<open>str.isspace\<close>, \<open>str.isdigit\<close>, \<open>str.lower\<close> and
  \<open>int\<close> apply to these code points.  Values cover what the constructor is handed by the
  form and by \<open>json.load\<close>: \<open>None\<close>, booleans, integers, strings, lists and dictionaries
  with string keys.  Floating-point numbers are left out.
\<close>

datatype pyval =
    PNone
  | PBool bool
  | PInt int
  | PStr string
  | PList "pyval list"
  | PDict "(string \<times> pyval) list"

datatype py_error = ValueError | TypeError | AttributeError

definition code :: "char \<Rightarrow> nat" where
  "code c = of_char c"

definition py_isspace :: "char \<Rightarrow> bool" where
  "py_isspace c \<longleftrightarrow>
     (9 \<le> code c \<and> code c \<le> 13) \<or> (28 \<le> code c \<and> code c \<le> 32) \<or> code c = 133 \<or> code c = 160"

definition is_decimal :: "char \<Rightarrow> bool" where
  "is_decimal c \<longleftrightarrow> 48 \<le> code c \<and> code c \<le> 57"

definition isdigit_char :: "char \<Rightarrow> bool" where
  \<comment> \<open>the decimal digits, and superscript two, three and one\<close>
  "isdigit_char c \<longleftrightarrow> is_decimal c \<or> code c = 178 \<or> code c = 179 \<or> code c = 185"

definition py_isdigit :: "string \<Rightarrow> bool" where
  "py_isdigit s \<longleftrightarrow> s \<noteq> [] \<and> list_all isdigit_char s"

definition lower_char :: "char \<Rightarrow> char" where
  "lower_char c =
     (if (65 \<le> code c \<and> code c \<le> 90) \<or> (192 \<le> code c \<and> code c \<le> 222 \<and> code c \<noteq> 215)
      then char_of (code c + 32) else c)"

definition py_lower :: "string \<Rightarrow> string" where
  "py_lower s = map lower_char s"

definition py_strip :: "string \<Rightarrow> string" where
  "py_strip s = rev (dropWhile py_isspace (rev (dropWhile py_isspace s)))"

fun starts_with :: "string \<Rightarrow> string \<Rightarrow> bool" where
  "starts_with [] ys = True"
| "starts_with (x # xs) [] = False"
| "starts_with (x # xs) (y # ys) = (x = y \<and> starts_with xs ys)"

fun py_in :: "string \<Rightarrow> string \<Rightarrow> bool" where
  \<comment> \<open>\<open>kw in s\<close> on strings: \<open>kw\<close> occurs in \<open>s\<close> as a contiguous piece\<close>
  "py_in kw [] = (kw = [])"
| "py_in kw (y # ys) = (starts_with kw (y # ys) \<or> py_in kw ys)"

subsection \<open>\<open>int(x)\<close>\<close>

fun parse_digits :: "string \<Rightarrow> bool \<Rightarrow> int \<Rightarrow> int option" where
  \<comment> \<open>digits, single underscores allowed between two digits; the flag says that a digit
      must come next\<close>
  "parse_digits [] need acc = (if need then None else Some acc)"
| "parse_digits (c # cs) need acc =
     (if is_decimal c then parse_digits cs False (acc * 10 + (int (code c) - 48))
      else if c = CHR ''_'' \<and> \<not> need then parse_digits cs True acc
      else None)"

definition int_of_str :: "string \<Rightarrow> py_error + int" where
  "int_of_str s =
     (let t = py_strip s;
          neg = (t \<noteq> [] \<and> hd t = CHR ''-'');
          body = (if t \<noteq> [] \<and> (hd t = CHR ''-'' \<or> hd t = CHR ''+'') then tl t else t)
      in case parse_digits body True 0 of
           None \<Rightarrow> Inl ValueError
         | Some n \<Rightarrow> Inr (if neg then - n else n))"

fun py_int :: "pyval \<Rightarrow> py_error + int" where
  "py_int PNone = Inl TypeError"
| "py_int (PBool b) = Inr (if b then 1 else 0)"
| "py_int (PInt n) = Inr n"
| "py_int (PStr s) = int_of_str s"
| "py_int (PList xs) = Inl TypeError"
| "py_int (PDict kvs) = Inl TypeError"

fun truthy :: "pyval \<Rightarrow> bool" where
  "truthy PNone = False"
| "truthy (PBool b) = b"
| "truthy (PInt n) = (n \<noteq> 0)"
| "truthy (PStr s) = (s \<noteq> [])"
| "truthy (PList xs) = (xs \<noteq> [])"
| "truthy (PDict kvs) = (kvs \<noteq> [])"

subsection \<open>\<open>str(x)\<close>\<close>

fun nat_digits :: "nat \<Rightarrow> string" where
  "nat_digits n =
     (if n < 10 then [char_of (48 + n)] else nat_digits (n div 10) @ [char_of (48 + n mod 10)])"

declare nat_digits.simps [simp del]

definition int_str :: "int \<Rightarrow> string" where
  "int_str n = (if n < 0 then CHR ''-'' # nat_digits (nat (- n)) else nat_digits (nat n))"

definition hex_digit :: "nat \<Rightarrow> char" where
  "hex_digit n = (if n < 10 then char_of (48 + n) else char_of (87 + n))"

definition printable :: "char \<Rightarrow> bool" where
  "printable c \<longleftrightarrow> (32 \<le> code c \<and> code c < 127) \<or> (161 \<le> code c \<and> code c \<noteq> 173)"

definition repr_char :: "char \<Rightarrow> char \<Rightarrow> string" where
  "repr_char q c =
     (if c = q \<or> c = CHR 0x5C then [CHR 0x5C, c]
      else if code c = 9 then [CHR 0x5C, CHR ''t'']
      else if code c = 10 then [CHR 0x5C, CHR ''n'']
      else if code c = 13 then [CHR 0x5C, CHR ''r'']
      else if printable c then [c]
      else [CHR 0x5C, CHR ''x'', hex_digit (code c div 16), hex_digit (code c mod 16)])"

definition repr_str :: "string \<Rightarrow> string" where
  "repr_str s =
     (let q = (if CHR 0x27 \<in> set s \<and> CHR 0x22 \<notin> set s then CHR 0x22 else CHR 0x27)
      in q # concat (map (repr_char q) s) @ [q])"

fun join :: "string \<Rightarrow> string list \<Rightarrow> string" where
  "join sep [] = []"
| "join sep [x] = x"
| "join sep (x # y # ys) = x @ sep @ join sep (y # ys)"

fun py_repr :: "pyval \<Rightarrow> string" where
  "py_repr PNone = ''None''"
| "py_repr (PBool b) = (if b then ''True'' else ''False'')"
| "py_repr (PInt n) = int_str n"
| "py_repr (PStr s) = repr_str s"
| "py_repr (PList xs) = ''['' @ join '', '' (map py_repr xs) @ '']''"
| "py_repr (PDict kvs) =
     ''{'' @ join '', '' (map (\<lambda>(k, v). repr_str k @ '': '' @ py_repr v) kvs) @ ''}''"

fun py_str :: "pyval \<Rightarrow> string" where
  "py_str (PStr s) = s"
| "py_str v = py_repr v"

section \<open>The record: class \<open>Anime\<close>\<close>

record Anime =
  title :: string
  year :: "int option"
  genres :: "string list"
  status :: string
  rating :: "int option"

definition bind :: "py_error + 'a \<Rightarrow> ('a \<Rightarrow> py_error + 'b) \<Rightarrow> py_error + 'b" where
  "bind m f = (case m of Inl e \<Rightarrow> Inl e | Inr x \<Rightarrow> f x)"

fun str_strip :: "pyval \<Rightarrow> py_error + string" where
  \<comment> \<open>\<open>x.strip()\<close>: only a string has the method\<close>
  "str_strip (PStr s) = Inr (py_strip s)"
| "str_strip v = Inl AttributeError"

fun py_iter :: "pyval \<Rightarrow> py_error + pyval list" where
  \<comment> \<open>the items a \<open>for\<close> loop sees\<close>
  "py_iter (PList xs) = Inr xs"
| "py_iter (PStr s) = Inr (map (\<lambda>c. PStr [c]) s)"
| "py_iter (PDict kvs) = Inr (map (\<lambda>(k, v). PStr k) kvs)"
| "py_iter v = Inl TypeError"

fun strip_all :: "pyval list \<Rightarrow> py_error + string list" where
  \<comment> \<open>\<open>[g.strip() for g in xs if g.strip()]\<close>\<close>
  "strip_all [] = Inr []"
| "strip_all (g # gs) =
     bind (str_strip g) (\<lambda>t. bind (strip_all gs) (\<lambda>ts. Inr (if t \<noteq> [] then t # ts else ts)))"

definition init_title :: "pyval \<Rightarrow> py_error + string" where
  "init_title t = str_strip t"

definition init_year :: "pyval \<Rightarrow> py_error + int option" where
  \<comment> \<open>\<open>int(year) if year else None\<close>\<close>
  "init_year y = (if truthy y then bind (py_int y) (\<lambda>n. Inr (Some n)) else Inr None)"

definition init_genres :: "pyval \<Rightarrow> py_error + string list" where
  \<comment> \<open>\<open>[g.strip() for g in (genres or []) if g.strip()]\<close>\<close>
  "init_genres g = bind (py_iter (if truthy g then g else PList [])) strip_all"

definition init_status :: "pyval \<Rightarrow> py_error + string" where
  \<comment> \<open>\<open>status.strip().lower() if status else "planned"\<close>\<close>
  "init_status s =
     (if truthy s then bind (str_strip s) (\<lambda>t. Inr (py_lower t)) else Inr ''planned'')"

definition init_rating :: "pyval \<Rightarrow> py_error + int option" where
  \<comment> \<open>\<open>int(rating) if (str(rating).isdigit()) and 0 <= int(rating) <= 5 else None\<close>\<close>
  "init_rating r =
     (if py_isdigit (py_str r)
      then bind (py_int r) (\<lambda>n. if 0 \<le> n \<and> n \<le> 5 then bind (py_int r) (\<lambda>m. Inr (Some m)) else Inr None)
      else Inr None)"

definition Anime_init :: "pyval \<Rightarrow> pyval \<Rightarrow> pyval \<Rightarrow> pyval \<Rightarrow> pyval \<Rightarrow> py_error + Anime" where
  \<comment> \<open>\<open>Anime.__init__\<close>, the five assignments in their order\<close>
  "Anime_init t y g s r =
     bind (init_title t) (\<lambda>t'.
     bind (init_year y) (\<lambda>y'.
     bind (init_genres g) (\<lambda>g'.
     bind (init_status s) (\<lambda>s'.
     bind (init_rating r) (\<lambda>r'.
       Inr \<lparr>title = t', year = y', genres = g', status = s', rating = r'\<rparr>)))))"

definition to_dict :: "Anime \<Rightarrow> pyval" where
  "to_dict a =
     PDict [(''title'', PStr (title a)),
            (''year'', case year a of None \<Rightarrow> PNone | Some n \<Rightarrow> PInt n),
            (''genres'', PList (map PStr (genres a))),
            (''status'', PStr (status a)),
            (''rating'', case rating a of None \<Rightarrow> PNone | Some n \<Rightarrow> PInt n)]"

definition dict_get :: "(string \<times> pyval) list \<Rightarrow> string \<Rightarrow> pyval \<Rightarrow> pyval" where
  \<comment> \<open>\<open>d.get(k, default)\<close>; the keys of a dictionary are distinct\<close>
  "dict_get kvs k dflt = (case map_of kvs k of None \<Rightarrow> dflt | Some v \<Rightarrow> v)"

fun from_dict :: "pyval \<Rightarrow> py_error + Anime" where
  "from_dict (PDict d) =
     Anime_init (dict_get d ''title'' (PStr ''''))
                (dict_get d ''year'' (PStr ''Unknown''))
                (dict_get d ''genres'' (PList []))
                (dict_get d ''status'' (PStr ''planned''))
                (dict_get d ''rating'' PNone)"
| "from_dict v = Inl AttributeError"

section \<open>The store and its file: class \<open>AnimeTracker\<close>\<close>

text \<open>
  \<open>self.animes\<close> is a reference to a list object: \<open>append\<close> changes the object in place,
  an assignment to \<open>self.animes\<close> and \<open>copy()\<close> make a new one.  The state therefore holds
  the list objects by reference.  Beside the tracker's own field it holds what the
  tracker touches outside: the file named \<open>self.filename\<close> (absent, unreadable for
  \<open>open\<close> or \<open>json.load\<close>, or holding a JSON value), whether the file can be opened for
  writing, and the writes and message boxes so far, oldest first.  A write that has
  been opened is taken to complete.
\<close>

type_synonym ref = nat

datatype fcontent = Unreadable | Json pyval

datatype event = Wrote pyval | ShowWarning string | ShowError string

record tracker =
  heap :: "ref \<Rightarrow> Anime list"
  fresh :: ref
  animes :: ref
  datafile :: "fcontent option"
  writable :: bool
  trace :: "event list"

definition store :: "tracker \<Rightarrow> Anime list" where
  \<comment> \<open>the list \<open>self.animes\<close> refers to\<close>
  "store s = heap s (animes s)"

definition new_list :: "Anime list \<Rightarrow> tracker \<Rightarrow> ref \<times> tracker" where
  "new_list xs s = (fresh s, s\<lparr>heap := (heap s)(fresh s := xs), fresh := Suc (fresh s)\<rparr>)"

definition assign_animes :: "Anime list \<Rightarrow> tracker \<Rightarrow> tracker" where
  \<comment> \<open>\<open>self.animes = [...]\<close>\<close>
  "assign_animes xs s = (let (r, s') = new_list xs s in s'\<lparr>animes := r\<rparr>)"

definition emit :: "event \<Rightarrow> tracker \<Rightarrow> tracker" where
  "emit e s = s\<lparr>trace := trace s @ [e]\<rparr>"

definition save :: "tracker \<Rightarrow> tracker" where
  "save s =
     (if writable s
      then (let data = PList (map to_dict (store s))
            in emit (Wrote data) (s\<lparr>datafile := Some (Json data)\<rparr>))
      else emit (ShowError ''Failed to save data file.'') s)"

fun from_dicts :: "pyval list \<Rightarrow> py_error + Anime list" where
  \<comment> \<open>\<open>[Anime.from_dict(x) for x in data]\<close>\<close>
  "from_dicts [] = Inr []"
| "from_dicts (x # xs) = bind (from_dict x) (\<lambda>a. bind (from_dicts xs) (\<lambda>as. Inr (a # as)))"

definition load :: "tracker \<Rightarrow> py_error + tracker" where
  \<comment> \<open>only \<open>OSError\<close> and \<open>JSONDecodeError\<close> are caught; any other exception leaves \<open>load\<close>\<close>
  "load s =
     (case datafile s of
        None \<Rightarrow> Inr (save (assign_animes [] s))
      | Some Unreadable \<Rightarrow>
          Inr (save (assign_animes [] (emit (ShowWarning ''Data file corrupted, reset to empty.'') s)))
      | Some (Json data) \<Rightarrow>
          bind (py_iter data) (\<lambda>xs. bind (from_dicts xs) (\<lambda>as. Inr (assign_animes as s))))"

definition tracker_init :: "fcontent option \<Rightarrow> bool \<Rightarrow> py_error + tracker" where
  \<comment> \<open>\<open>AnimeTracker.__init__\<close>, run where the file is \<open>f\<close>\<close>
  "tracker_init f w =
     load (assign_animes []
       \<lparr>heap = (\<lambda>r. []), fresh = 0, animes = 0, datafile = f, writable = w, trace = []\<rparr>)"

definition add_anime :: "Anime \<Rightarrow> tracker \<Rightarrow> bool \<times> tracker" where
  "add_anime anime s =
     (if list_ex (\<lambda>a. py_lower (title a) = py_lower (title anime)) (store s)
      then (False, emit (ShowWarning ''Anime already exists.'') s)
      else (True, save (s\<lparr>heap := (heap s)(animes s := store s @ [anime])\<rparr>)))"

definition delete_by_title :: "string \<Rightarrow> tracker \<Rightarrow> bool \<times> tracker" where
  "delete_by_title t s =
     (let before = length (store s);
          s1 = assign_animes (filter (\<lambda>a. py_lower (title a) \<noteq> py_lower t) (store s)) s
      in if length (store s1) < before then (True, save s1)
         else (False, emit (ShowWarning ''Anime not found.'') s1))"

definition matches :: "string \<Rightarrow> Anime \<Rightarrow> bool" where
  \<comment> \<open>\<open>kw in a.title.lower() or any(kw in g.lower() for g in a.genres)\<close>\<close>
  "matches kw a \<longleftrightarrow> py_in kw (py_lower (title a)) \<or> list_ex (\<lambda>g. py_in kw (py_lower g)) (genres a)"

fun search_loop :: "string \<Rightarrow> Anime list \<Rightarrow> Anime list \<Rightarrow> Anime list" where
  "search_loop kw [] res = res"
| "search_loop kw (a # as) res = search_loop kw as (if matches kw a then res @ [a] else res)"

definition search :: "string \<Rightarrow> tracker \<Rightarrow> ref \<times> tracker" where
  \<comment> \<open>the result is a reference to the list returned\<close>
  "search kw0 s =
     (let kw = py_lower (py_strip kw0)
      in if kw = [] then new_list (store s) s
         else new_list (search_loop kw (store s) []) s)"

section \<open>Reporting\<close>

subsection \<open>\<open>collections.Counter\<close>\<close>

text \<open>
  A counter is a dictionary from keys to counts that keeps the order in which the keys
  were first inserted.  \<open>most_common\<close> sorts the items by count, largest first, with a
  stable sort, so equal counts stay in insertion order; \<open>most_common(n)\<close> is its first
  \<open>n\<close> items.
\<close>

type_synonym counter = "(string \<times> nat) list"

fun counter_incr :: "string \<Rightarrow> counter \<Rightarrow> counter" where
  "counter_incr g [] = [(g, 1)]"
| "counter_incr g ((k, c) # kcs) =
     (if k = g then (k, c + 1) # kcs else (k, c) # counter_incr g kcs)"

definition counter_update :: "counter \<Rightarrow> string list \<Rightarrow> counter" where
  "counter_update c xs = fold counter_incr xs c"

definition most_common :: "counter \<Rightarrow> counter" where
  "most_common c = sort_key (\<lambda>(g, n). - int n) c"

definition most_common_n :: "nat \<Rightarrow> counter \<Rightarrow> counter" where
  "most_common_n n c = take n (most_common c)"

subsection \<open>Floating-point division and \<open>round(x, 2)\<close>\<close>

text \<open>
  A float is given by its exact value, a rational.  \<open>to_double\<close> is the double nearest to
  a rational, ties to the even significand of 53 bits, as \<open>int / int\<close> and the conversion of
  a decimal compute it (in the range of normal doubles, which the quotients of \<open>stats\<close>
  leave only beyond \<open>2 ^ 1022\<close> records).
  \<open>round(x, 2)\<close> takes the decimal with two places nearest to the exact value of \<open>x\<close>, ties
  to the even last place, and returns the double nearest to it.
\<close>

definition pow2 :: "int \<Rightarrow> rat" where
  "pow2 e = (if 0 \<le> e then 2 ^ nat e else 1 / 2 ^ nat (- e))"

definition round_half_even :: "rat \<Rightarrow> int" where
  "round_half_even x =
     (let f = \<lfloor>x\<rfloor>; d = x - of_int f
      in if d < 1 / 2 then f else if 1 / 2 < d then f + 1 else if even f then f else f + 1)"

definition floor_log2 :: "int \<Rightarrow> int \<Rightarrow> int" where
  \<comment> \<open>the \<open>e\<close> with \<open>2 ^ e \<le> a / b < 2 ^ (e + 1)\<close>, for positive \<open>a\<close> and \<open>b\<close>\<close>
  "floor_log2 a b =
     (let d = bitlen a - bitlen b in if pow2 d \<le> of_int a / of_int b then d else d - 1)"

definition to_double :: "rat \<Rightarrow> rat" where
  "to_double x =
     (if x = 0 then 0
      else (let (a, b) = quotient_of \<bar>x\<bar>;
                e = floor_log2 a b - 52
            in sgn x * of_int (round_half_even (\<bar>x\<bar> / pow2 e)) * pow2 e))"

definition py_truediv :: "int \<Rightarrow> int \<Rightarrow> rat" where
  \<comment> \<open>\<open>a / b\<close> on integers, for \<open>b \<noteq> 0\<close>\<close>
  "py_truediv a b = to_double (of_int a / of_int b)"

definition py_round2 :: "rat \<Rightarrow> rat" where
  "py_round2 x = to_double (of_int (round_half_even (x * 100)) / 100)"

subsection \<open>\<open>stats\<close>\<close>

definition present_ratings :: "Anime list \<Rightarrow> int list" where
  \<comment> \<open>\<open>[a.rating for a in self.animes if a.rating is not None]\<close>\<close>
  "present_ratings as = map (\<lambda>a. the (rating a)) (filter (\<lambda>a. rating a \<noteq> None) as)"

definition genre_counter :: "Anime list \<Rightarrow> counter" where
  \<comment> \<open>\<open>for a in self.animes: genre_counter.update(a.genres)\<close>\<close>
  "genre_counter as = fold (\<lambda>a c. counter_update c (genres a)) as []"

definition stats :: "tracker \<Rightarrow> nat \<times> rat option \<times> counter" where
  "stats s =
     (let total = length (store s);
          ratings = present_ratings (store s);
          avg_rating = (if ratings \<noteq> []
                        then Some (py_round2 (py_truediv (sum_list ratings) (int (length ratings))))
                        else None);
          top_genres = most_common_n 3 (genre_counter (store s))
      in (total, avg_rating, top_genres))"

subsection \<open>\<open>recommend\<close>\<close>

definition CATALOG :: "(string \<times> string list) list" where
  "CATALOG =
     [(''Action'', [''Attack on Titan'', ''Chainsaw Man'', ''Cyberpunk: Edgerunners'']),
      (''Fantasy'', [''Re:Zero'', ''Mushoku Tensei'',
                     ''Frieren: Beyond Journey'' @ [CHR 0x27] @ ''s End'']),
      (''School'', [''Too Many Losing Heroines!'', ''Kaguya-sama: Love is War'', ''Horimiya'']),
      (''Band'', [''K-ON'', ''MyGO!!!!!'', ''Girls Band Cry''])]"

definition liked_counter :: "Anime list \<Rightarrow> counter" where
  \<comment> \<open>the genres of the records rated 4 or 5, counted\<close>
  "liked_counter as =
     fold (\<lambda>a c. case rating a of
                    None \<Rightarrow> c
                  | Some r \<Rightarrow> if 4 \<le> r then counter_update c (genres a) else c) as []"

fun recs_loop :: "string list \<Rightarrow> string list \<Rightarrow> string list" where
  \<comment> \<open>\<open>for g in fav: if g in CATALOG: recs.extend(CATALOG[g])\<close>\<close>
  "recs_loop [] recs = recs"
| "recs_loop (g # gs) recs =
     recs_loop gs (case map_of CATALOG g of None \<Rightarrow> recs | Some ts \<Rightarrow> recs @ ts)"

fun unique_loop :: "string list \<Rightarrow> string set \<Rightarrow> string list \<Rightarrow> string list" where
  \<comment> \<open>\<open>for r in recs: if r.lower() not in existing and r not in unique: unique.append(r)\<close>\<close>
  "unique_loop [] existing unique = unique"
| "unique_loop (r # rs) existing unique =
     unique_loop rs existing
       (if py_lower r \<notin> existing \<and> r \<notin> set unique then unique @ [r] else unique)"

definition slice_to :: "'a list \<Rightarrow> int \<Rightarrow> 'a list" where
  \<comment> \<open>\<open>xs[:n]\<close>; a negative \<open>n\<close> counts from the end\<close>
  "slice_to xs n = (if 0 \<le> n then take (nat n) xs else take (length xs - nat (- n)) xs)"

definition recommend :: "int \<Rightarrow> tracker \<Rightarrow> string list" where
  "recommend top_n s =
     (let liked = liked_counter (store s)
      in if liked = [] then []
         else (let fav = map fst (most_common liked);
                   recs = recs_loop fav [];
                   existing = set (map (\<lambda>a. py_lower (title a)) (store s));
                   unique = unique_loop recs existing []
               in slice_to unique top_n))"

section \<open>Notions the properties are stated with\<close>

definition allocated :: "tracker \<Rightarrow> bool" where
  \<comment> \<open>the list \<open>self.animes\<close> refers to is one of the list objects made so far\<close>
  "allocated s \<longleftrightarrow> animes s < fresh s"

definition substring :: "string \<Rightarrow> string \<Rightarrow> bool" where
  "substring kw s \<longleftrightarrow> (\<exists>ps ss. s = ps @ kw @ ss)"

definition contains_ci :: "string \<Rightarrow> Anime \<Rightarrow> bool" where
  \<comment> \<open>the title or some genre contains \<open>kw\<close>, letter case ignored\<close>
  "contains_ci kw a \<longleftrightarrow>
     substring (py_lower kw) (py_lower (title a)) \<or>
     (\<exists>g \<in> set (genres a). substring (py_lower kw) (py_lower g))"

definition unique_titles :: "Anime list \<Rightarrow> bool" where
  \<comment> \<open>no two records have titles that are equal when letter case is ignored\<close>
  "unique_titles as \<longleftrightarrow> distinct (map (\<lambda>a. py_lower (title a)) as)"

datatype op = Add Anime | Delete string

fun run :: "op list \<Rightarrow> tracker \<Rightarrow> tracker" where
  "run [] s = s"
| "run (Add a # ops) s = run ops (snd (add_anime a s))"
| "run (Delete t # ops) s = run ops (snd (delete_by_title t s))"

inductive built :: "tracker \<Rightarrow> bool" where
  \<comment> \<open>a tracker that started with an empty store and was changed by \<open>add_anime\<close> only,
      each time with a record the constructor returned\<close>
  start: "tracker_init f w = Inr s \<Longrightarrow> store s = [] \<Longrightarrow> built s"
| add: "built s \<Longrightarrow> Anime_init t y g st r = Inr a \<Longrightarrow> built (snd (add_anime a s))"

definition likes :: "Anime \<Rightarrow> bool" where
  \<comment> \<open>the record has a rating, and it is 4 or more\<close>
  "likes a \<longleftrightarrow> (case rating a of None \<Rightarrow> False | Some r \<Rightarrow> 4 \<le> r)"

definition all_genres :: "Anime list \<Rightarrow> string list" where
  \<comment> \<open>the genre lists of the records, one after the other\<close>
  "all_genres as = concat (map genres as)"

definition first_index :: "string list \<Rightarrow> string \<Rightarrow> nat" where
  \<comment> \<open>where \<open>g\<close> first occurs in \<open>gs\<close>\<close>
  "first_index gs g = length (takeWhile (\<lambda>x. x \<noteq> g) gs)"

definition ranks_before :: "string list \<Rightarrow> string \<Rightarrow> string \<Rightarrow> bool" where
  \<comment> \<open>\<open>g\<close> occurs more often than \<open>h\<close>, or as often and earlier\<close>
  "ranks_before gs g h \<longleftrightarrow>
     count_list gs h < count_list gs g \<or>
     (count_list gs g = count_list gs h \<and> first_index gs g < first_index gs h)"

subsection \<open>Sample data\<close>

definition after_start :: tracker where
  \<comment> \<open>the tracker \<open>AnimeTracker()\<close> returns where no file exists and the file can be written\<close>
  "after_start = projr (tracker_init None True)"

definition sample :: "string \<Rightarrow> string list \<Rightarrow> int option \<Rightarrow> Anime" where
  "sample t gs r = \<lparr>title = t, year = None, genres = gs, status = ''planned'', rating = r\<rparr>"

definition five_rated :: "Anime list" where
  \<comment> \<open>ratings 5, 5, 4, none, 2 with genres A; A, B; B; C; A\<close>
  "five_rated =
     [sample ''one'' [''A''] (Some 5), sample ''two'' [''A'', ''B''] (Some 5),
      sample ''three'' [''B''] (Some 4), sample ''four'' [''C''] None,
      sample ''five'' [''A''] (Some 2)]"

definition duplicate_file :: fcontent where
  \<comment> \<open>a file with two entries whose titles differ in letter case only\<close>
  "duplicate_file =
     Json (PList [to_dict (sample ''Naruto'' [] None), to_dict (sample ''naruto'' [] None)])"

definition xmen_tracker :: tracker where
  "xmen_tracker = snd (add_anime (sample ''x-men'' [] None) after_start)"

definition stripped :: "string \<Rightarrow> bool" where
  \<comment> \<open>no whitespace at either end\<close>
  "stripped s \<longleftrightarrow> s = [] \<or> (\<not> py_isspace (hd s) \<and> \<not> py_isspace (last s))"

definition normal :: "Anime \<Rightarrow> bool" where
  \<comment> \<open>what the constructor establishes of the fields\<close>
  "normal a \<longleftrightarrow>
     stripped (title a) \<and>
     list_all (\<lambda>g. stripped g \<and> g \<noteq> []) (genres a) \<and>
     stripped (status a) \<and> py_lower (status a) = status a \<and>
     (case rating a of None \<Rightarrow> True | Some n \<Rightarrow> 0 \<le> n \<and> n \<le> 5)"

definition zero_year_tracker :: tracker where
  \<comment> \<open>the fresh tracker after adding \<open>Anime("Akira", "0")\<close>\<close>
  "zero_year_tracker =
     snd (add_anime (projr (Anime_init (PStr ''Akira'') (PStr ''0'') PNone PNone PNone)) after_start)"

definition naruto :: Anime where
  "naruto = \<lparr>title = ''Naruto'', year = Some 2002, genres = [''Action''], status = ''watching'',
             rating = Some 5\<rparr>"

definition naruto_tracker :: tracker where
  "naruto_tracker = snd (add_anime naruto after_start)"

definition first_seen :: "string list \<Rightarrow> string list" where
  \<comment> \<open>the distinct elements, in the order of their first occurrence\<close>
  "first_seen gs = rev (remdups (rev gs))"

definition counts_of :: "string list \<Rightarrow> counter" where
  \<comment> \<open>the counter obtained by counting the elements of \<open>gs\<close>\<close>
  "counts_of gs = map (\<lambda>g. (g, count_list gs g)) (first_seen gs)"

definition mean :: "int list \<Rightarrow> rat" where
  \<comment> \<open>the exact average\<close>
  "mean rs = of_int (sum_list rs) / of_int (int (length rs))"

definition five_tracker :: tracker where
  "five_tracker = run (map Add five_rated) after_start"

definition comedy_tracker :: tracker where
  \<comment> \<open>one record, rated 5, of a genre the catalog does not have\<close>
  "comedy_tracker = snd (add_anime (sample ''Gintama'' [''Comedy''] (Some 5)) after_start)"

definition band_tracker :: tracker where
  "band_tracker = snd (add_anime (sample ''Bocchi'' [''Band''] (Some 5)) after_start)"

section \<open>How the operations change the state\<close>

lemma bind_Inr [simp]: "bind (Inr x) f = f x"
  by (simp add: bind_def)

lemma bind_Inl [simp]: "bind (Inl e) f = Inl e"
  by (simp add: bind_def)

lemma bind_eq_Inr: "bind m f = Inr y \<longleftrightarrow> (\<exists>x. m = Inr x \<and> f x = Inr y)"
  by (cases m) simp_all

lemma assign_animes_fields [simp]:
  "store (assign_animes xs s) = xs"
  "animes (assign_animes xs s) = fresh s"
  "fresh (assign_animes xs s) = Suc (fresh s)"
  "heap (assign_animes xs s) = (heap s)(fresh s := xs)"
  "datafile (assign_animes xs s) = datafile s"
  "writable (assign_animes xs s) = writable s"
  "trace (assign_animes xs s) = trace s"
  by (simp_all add: assign_animes_def new_list_def store_def)

lemma emit_fields [simp]:
  "store (emit e s) = store s"
  "animes (emit e s) = animes s"
  "fresh (emit e s) = fresh s"
  "heap (emit e s) = heap s"
  "datafile (emit e s) = datafile s"
  "writable (emit e s) = writable s"
  "trace (emit e s) = trace s @ [e]"
  by (simp_all add: emit_def store_def)

lemma save_fields [simp]:
  "store (save s) = store s"
  "animes (save s) = animes s"
  "fresh (save s) = fresh s"
  "heap (save s) = heap s"
  "writable (save s) = writable s"
  by (simp_all add: save_def store_def emit_def Let_def)

lemma save_writable:
  "writable s \<Longrightarrow> datafile (save s) = Some (Json (PList (map to_dict (store s))))"
  "writable s \<Longrightarrow> trace (save s) = trace s @ [Wrote (PList (map to_dict (store s)))]"
  by (simp_all add: save_def Let_def)

lemma save_not_writable:
  "\<not> writable s \<Longrightarrow> datafile (save s) = datafile s"
  "\<not> writable s \<Longrightarrow> trace (save s) = trace s @ [ShowError ''Failed to save data file.'']"
  by (simp_all add: save_def)

lemma started: "tracker_init None True = Inr after_start"
  by (simp add: after_start_def tracker_init_def load_def)

lemma after_start_fields [simp]:
  "store after_start = []"
  "animes after_start = 1"
  "fresh after_start = 2"
  "writable after_start"
  "datafile after_start = Some (Json (PList []))"
  "trace after_start = [Wrote (PList [])]"
  by (simp_all add: after_start_def tracker_init_def load_def save_writable)

section \<open>Properties of the constructor\<close>


lemma Anime_init_Inr:
  "Anime_init t y g s r = Inr a \<longleftrightarrow>
     (\<exists>t' y' g' s' r'. init_title t = Inr t' \<and> init_year y = Inr y' \<and> init_genres g = Inr g' \<and>
        init_status s = Inr s' \<and> init_rating r = Inr r' \<and>
        a = \<lparr>title = t', year = y', genres = g', status = s', rating = r'\<rparr>)"
  unfolding Anime_init_def bind_eq_Inr by auto

text \<open>
  C1 (the code departs from it).  Constructing a record is claimed never to fail, also for
  an entry of the file with keys missing.  For an entry without the key \<open>year\<close>,
  \<open>from_dict\<close> hands the constructor the default \<open>"Unknown"\<close>, \<open>int("Unknown")\<close> raises
  \<open>ValueError\<close>, and \<open>load\<close>, which catches \<open>OSError\<close> and \<open>JSONDecodeError\<close> only, raises it
  too: no tracker is made from a file holding such an entry.
\<close>

theorem from_dict_missing_year_raises:
  "from_dict (PDict [(''title'', PStr ''Bleach'')]) = Inl ValueError \<and>
   tracker_init (Some (Json (PList [PDict [(''title'', PStr ''Bleach'')]]))) True = Inl ValueError"
proof -
  have 1: "from_dict (PDict [(''title'', PStr ''Bleach'')]) = Inl ValueError"
    by code_simp
  then show ?thesis
    by (simp add: tracker_init_def load_def)
qed

text \<open>
  C7 (the code departs from it).  A rating whose string form is not a sequence of decimal
  digits is claimed to give an absent rating without an error.  \<open>str.isdigit\<close> also accepts
  the superscript digits, which \<open>int\<close> rejects: for the rating made of the one character superscript two (code point 178) the
  test passes and the constructor raises \<open>ValueError\<close>.
\<close>

theorem superscript_rating_raises:
  "py_isdigit (py_str (PStr [CHR 0xB2])) \<and>
   Anime_init (PStr ''Bleach'') PNone PNone (PStr ''planned'') (PStr [CHR 0xB2]) = Inl ValueError"
  by code_simp

text \<open>
  C10.  Whether the year is absent is decided by the truth value of the argument: when
  the constructor returns a record, the year of the record is absent for the arguments
  \<open>0\<close>, \<open>None\<close> and \<open>""\<close>, and it is 0 for the argument \<open>"0"\<close>.
\<close>

theorem year_by_truthiness:
  assumes "Anime_init t y g s r = Inr a"
  shows "(y = PInt 0 \<or> y = PNone \<or> y = PStr '''' \<longrightarrow> year a = None) \<and>
         (y = PStr ''0'' \<longrightarrow> year a = Some 0)"
proof -
  from assms obtain y' where y': "init_year y = Inr y'" and a: "year a = y'"
    unfolding Anime_init_Inr by auto
  have "init_year (PInt 0) = Inr None" "init_year PNone = Inr None" "init_year (PStr '''') = Inr None"
    by (simp_all add: init_year_def)
  moreover have "init_year (PStr ''0'') = Inr (Some 0)"
    by code_simp
  ultimately show ?thesis
    using y' a by auto
qed

theorem year_by_truthiness_witness:
  "Anime_init (PStr ''Akira'') (PInt 0) PNone PNone PNone =
     Inr \<lparr>title = ''Akira'', year = None, genres = [], status = ''planned'', rating = None\<rparr> \<and>
   Anime_init (PStr ''Akira'') (PStr ''0'') PNone PNone PNone =
     Inr \<lparr>title = ''Akira'', year = Some 0, genres = [], status = ''planned'', rating = None\<rparr> \<and>
   year \<lparr>title = ''Akira'', year = None, genres = [], status = ''planned'', rating = None\<rparr> = None \<and>
   year \<lparr>title = ''Akira'', year = Some 0, genres = [], status = ''planned'', rating = None\<rparr> = Some 0"
proof -
  have 1: "Anime_init (PStr ''Akira'') (PInt 0) PNone PNone PNone =
     Inr \<lparr>title = ''Akira'', year = None, genres = [], status = ''planned'', rating = None\<rparr>"
    by code_simp
  have 2: "Anime_init (PStr ''Akira'') (PStr ''0'') PNone PNone PNone =
     Inr \<lparr>title = ''Akira'', year = Some 0, genres = [], status = ''planned'', rating = None\<rparr>"
    by code_simp
  show ?thesis
    using year_by_truthiness [OF 1] year_by_truthiness [OF 2] 1 2 by simp
qed

section \<open>Adding and deleting\<close>

lemma list_ex_title:
  "list_ex (\<lambda>b. py_lower (title b) = k) xs \<longleftrightarrow> (\<exists>b \<in> set xs. py_lower (title b) = k)"
  by (simp add: list_ex_iff)

lemma lower_eval:
  "py_lower ''NARUTO'' = ''naruto''" "py_lower ''Naruto'' = ''naruto''" "py_lower ''naruto'' = ''naruto''"
  by code_simp+

lemma store_add_anime:
  "store (snd (add_anime a s)) =
     (if \<exists>b \<in> set (store s). py_lower (title b) = py_lower (title a) then store s
      else store s @ [a])"
  by (simp add: add_anime_def list_ex_title store_def)

lemma store_delete_by_title:
  "store (snd (delete_by_title t s)) = filter (\<lambda>a. py_lower (title a) \<noteq> py_lower t) (store s)"
  by (simp add: delete_by_title_def Let_def)

lemma store_naruto:
  "store (snd (add_anime (sample ''Naruto'' [] None) after_start)) = [sample ''Naruto'' [] None]"
  by (simp add: store_add_anime)

text \<open>
  C3.  \<open>add_anime\<close> looks for a record whose title equals the new title when both are
  lowercased.  If there is one, it returns \<open>False\<close>: the store, the list object and the file
  are as before, and the only effect is the warning (no write, no write error).
  Otherwise it returns \<open>True\<close>, the store is the old one with the record at the end, and
  \<open>save\<close> has run on it: the file holds the dictionaries of the new store, or, where the
  file cannot be opened for writing, the error box is shown and the file is as before.
\<close>

theorem add_anime_spec:
  assumes "add_anime a s = (ok, s')"
  shows "((\<exists>b \<in> set (store s). py_lower (title b) = py_lower (title a)) \<longrightarrow>
            \<not> ok \<and> store s' = store s \<and> animes s' = animes s \<and> heap s' = heap s \<and>
            datafile s' = datafile s \<and>
            trace s' = trace s @ [ShowWarning ''Anime already exists.'']) \<and>
         (\<not> (\<exists>b \<in> set (store s). py_lower (title b) = py_lower (title a)) \<longrightarrow>
            ok \<and> store s' = store s @ [a] \<and>
            (if writable s
             then datafile s' = Some (Json (PList (map to_dict (store s @ [a])))) \<and>
                  trace s' = trace s @ [Wrote (PList (map to_dict (store s @ [a])))]
             else datafile s' = datafile s \<and>
                  trace s' = trace s @ [ShowError ''Failed to save data file.'']))"
proof (cases "\<exists>b \<in> set (store s). py_lower (title b) = py_lower (title a)")
  case True
  with assms have "ok = False" "s' = emit (ShowWarning ''Anime already exists.'') s"
    by (auto simp: add_anime_def list_ex_title)
  with True show ?thesis by simp
next
  case False
  define s1 where "s1 = s\<lparr>heap := (heap s)(animes s := store s @ [a])\<rparr>"
  have s1: "store s1 = store s @ [a]" "writable s1 = writable s" "datafile s1 = datafile s"
    "trace s1 = trace s"
    by (simp_all add: s1_def store_def)
  from False assms have "ok = True" "s' = save s1"
    by (auto simp: add_anime_def list_ex_title s1_def)
  with False s1 show ?thesis
    by (simp add: save_writable save_not_writable)
qed

theorem add_anime_spec_witness:
  "fst (add_anime (sample ''Naruto'' [] None) after_start) \<and>
   store (snd (add_anime (sample ''Naruto'' [] None) after_start)) = [sample ''Naruto'' [] None] \<and>
   \<not> fst (add_anime (sample ''NARUTO'' [] None) (snd (add_anime (sample ''Naruto'' [] None) after_start))) \<and>
   store (snd (add_anime (sample ''NARUTO'' [] None) (snd (add_anime (sample ''Naruto'' [] None) after_start))))
     = [sample ''Naruto'' [] None]"
proof -
  let ?a = "sample ''Naruto'' [] None" and ?b = "sample ''NARUTO'' [] None"
  let ?s1 = "snd (add_anime ?a after_start)"
  have e1: "add_anime ?a after_start = (fst (add_anime ?a after_start), ?s1)"
    by simp
  have n1: "\<not> (\<exists>b \<in> set (store after_start). py_lower (title b) = py_lower (title ?a))"
    by simp
  from add_anime_spec [OF e1] n1
  have r1: "fst (add_anime ?a after_start)" "store ?s1 = [?a]"
    by simp_all
  have e2: "add_anime ?b ?s1 = (fst (add_anime ?b ?s1), snd (add_anime ?b ?s1))"
    by simp
  have d2: "\<exists>b \<in> set (store ?s1). py_lower (title b) = py_lower (title ?b)"
    unfolding r1 by (simp add: sample_def lower_eval)
  from add_anime_spec [OF e2] d2
  have "\<not> fst (add_anime ?b ?s1)" "store (snd (add_anime ?b ?s1)) = store ?s1"
    by simp_all
  with r1 show ?thesis by simp
qed

text \<open>
  C4.  \<open>delete_by_title\<close> keeps exactly the records whose lowercased title differs from
  the lowercased argument.  If some record matched, it returns \<open>True\<close> and \<open>save\<close> has run on
  the remaining records; if none matched, it returns \<open>False\<close>, the store holds the same
  records, the file is as before and the only effect is the warning.
\<close>

theorem delete_by_title_spec:
  assumes "delete_by_title t s = (ok, s')"
  shows "store s' = filter (\<lambda>a. py_lower (title a) \<noteq> py_lower t) (store s) \<and>
         ((\<exists>a \<in> set (store s). py_lower (title a) = py_lower t) \<longrightarrow>
            ok \<and>
            (if writable s
             then datafile s' = Some (Json (PList (map to_dict (store s')))) \<and>
                  trace s' = trace s @ [Wrote (PList (map to_dict (store s')))]
             else datafile s' = datafile s \<and>
                  trace s' = trace s @ [ShowError ''Failed to save data file.''])) \<and>
         (\<not> (\<exists>a \<in> set (store s). py_lower (title a) = py_lower t) \<longrightarrow>
            \<not> ok \<and> store s' = store s \<and> datafile s' = datafile s \<and>
            trace s' = trace s @ [ShowWarning ''Anime not found.''])"
proof -
  let ?keep = "\<lambda>a. py_lower (title a) \<noteq> py_lower t"
  define s1 where "s1 = assign_animes (filter ?keep (store s)) s"
  have s1: "store s1 = filter ?keep (store s)" "writable s1 = writable s"
    "datafile s1 = datafile s" "trace s1 = trace s"
    by (simp_all add: s1_def)
  have less: "length (filter ?keep (store s)) < length (store s) \<longleftrightarrow>
      (\<exists>a \<in> set (store s). py_lower (title a) = py_lower t)"
  proof
    assume "length (filter ?keep (store s)) < length (store s)"
    then have "filter ?keep (store s) \<noteq> store s" by auto
    then show "\<exists>a \<in> set (store s). py_lower (title a) = py_lower t"
      by (auto simp: filter_id_conv)
  next
    assume "\<exists>a \<in> set (store s). py_lower (title a) = py_lower t"
    then show "length (filter ?keep (store s)) < length (store s)"
      by (auto intro: length_filter_less)
  qed
  show ?thesis
  proof (cases "\<exists>a \<in> set (store s). py_lower (title a) = py_lower t")
    case True
    with assms less have "ok = True" "s' = save s1"
      by (auto simp: delete_by_title_def Let_def s1_def)
    with True s1 show ?thesis
      by (simp add: save_writable save_not_writable)
  next
    case False
    with assms less have "ok = False" "s' = emit (ShowWarning ''Anime not found.'') s1"
      by (auto simp: delete_by_title_def Let_def s1_def)
    moreover from False have "filter ?keep (store s) = store s"
      by (auto simp: filter_id_conv)
    ultimately show ?thesis
      using False s1 by simp
  qed
qed

theorem delete_by_title_spec_witness:
  "fst (delete_by_title ''NARUTO'' (snd (add_anime (sample ''Naruto'' [] None) after_start))) \<and>
   store (snd (delete_by_title ''NARUTO'' (snd (add_anime (sample ''Naruto'' [] None) after_start)))) = [] \<and>
   \<not> fst (delete_by_title ''NARUTO'' after_start) \<and>
   store (snd (delete_by_title ''NARUTO'' after_start)) = []"
proof -
  let ?a = "sample ''Naruto'' [] None"
  let ?s1 = "snd (add_anime ?a after_start)"
  have s1: "store ?s1 = [?a]"
    by (rule store_naruto)
  have e2: "delete_by_title ''NARUTO'' ?s1 =
      (fst (delete_by_title ''NARUTO'' ?s1), snd (delete_by_title ''NARUTO'' ?s1))"
    by simp
  have d2: "\<exists>a \<in> set (store ?s1). py_lower (title a) = py_lower ''NARUTO''"
    unfolding s1 by (simp add: sample_def lower_eval)
  from delete_by_title_spec [OF e2] d2
  have r2: "fst (delete_by_title ''NARUTO'' ?s1)"
    "store (snd (delete_by_title ''NARUTO'' ?s1)) = []"
    unfolding s1 by (simp_all add: sample_def lower_eval)
  have e3: "delete_by_title ''NARUTO'' after_start =
      (fst (delete_by_title ''NARUTO'' after_start), snd (delete_by_title ''NARUTO'' after_start))"
    by simp
  have n3: "\<not> (\<exists>a \<in> set (store after_start). py_lower (title a) = py_lower ''NARUTO'')"
    by simp
  from delete_by_title_spec [OF e3] n3
  have "\<not> fst (delete_by_title ''NARUTO'' after_start)"
    "store (snd (delete_by_title ''NARUTO'' after_start)) = []"
    by simp_all
  with r2 show ?thesis by simp
qed

section \<open>Titles stay unique\<close>

lemma unique_titles_add:
  "unique_titles (store s) \<Longrightarrow> unique_titles (store (snd (add_anime a s)))"
  by (auto simp: store_add_anime unique_titles_def)

lemma unique_titles_delete:
  "unique_titles (store s) \<Longrightarrow> unique_titles (store (snd (delete_by_title t s)))"
  by (simp add: store_delete_by_title unique_titles_def distinct_map_filter)

lemma unique_titles_run:
  "unique_titles (store s) \<Longrightarrow> unique_titles (store (run ops s))"
  by (induction ops s rule: run.induct) (simp_all add: unique_titles_add unique_titles_delete)

lemma from_dict_samples:
  "from_dict (to_dict (sample ''Naruto'' [] None)) = Inr (sample ''Naruto'' [] None)"
  "from_dict (to_dict (sample ''naruto'' [] None)) = Inr (sample ''naruto'' [] None)"
  by code_simp+

text \<open>
  C8 as stated fails: \<open>load\<close> turns every entry of the file into a record and never
  compares titles, so a file with the titles \<open>Naruto\<close> and \<open>naruto\<close> gives a store that holds
  both.
\<close>

theorem load_keeps_duplicates:
  "map_sum id (unique_titles \<circ> store) (tracker_init (Some duplicate_file) True) = Inr False"
proof -
  have "tracker_init (Some duplicate_file) True =
      Inr (assign_animes [sample ''Naruto'' [] None, sample ''naruto'' [] None]
            (assign_animes []
              \<lparr>heap = (\<lambda>r. []), fresh = 0, animes = 0, datafile = Some duplicate_file,
                 writable = True, trace = []\<rparr>))"
    by (simp add: tracker_init_def load_def duplicate_file_def from_dict_samples)
  then show ?thesis
    by (simp add: unique_titles_def sample_def lower_eval)
qed

text \<open>
  C8, amended.  From the empty store, and from any store in which no two titles are equal
  when letter case is ignored, every sequence of \<open>add_anime\<close> and \<open>delete_by_title\<close> calls
  leads to a store in which no two titles are equal when letter case is ignored.
\<close>

theorem unique_titles_invariant:
  assumes "store s = [] \<or> unique_titles (store s)"
  shows "unique_titles (store (run ops s))"
proof -
  from assms have "unique_titles (store s)"
    by (auto simp: unique_titles_def)
  then show ?thesis
    by (rule unique_titles_run)
qed

theorem unique_titles_invariant_witness:
  "store after_start = [] \<and>
   unique_titles (store (run [Add (sample ''Naruto'' [] None), Add (sample ''NARUTO'' [] None),
                              Delete ''bleach'', Add (sample ''Bleach'' [] None)] after_start))"
proof -
  have "store after_start = [] \<or> unique_titles (store after_start)"
    by simp
  from unique_titles_invariant [OF this,
      of "[Add (sample ''Naruto'' [] None), Add (sample ''NARUTO'' [] None),
           Delete ''bleach'', Add (sample ''Bleach'' [] None)]"]
  show ?thesis
    by simp
qed

section \<open>Searching\<close>

lemma starts_with_iff: "starts_with xs ys \<longleftrightarrow> (\<exists>ss. ys = xs @ ss)"
  by (induction xs ys rule: starts_with.induct) auto

lemma py_in_iff: "py_in kw s \<longleftrightarrow> substring kw s"
proof (induction s)
  case Nil
  show ?case by (auto simp: substring_def)
next
  case (Cons y ys)
  have "substring kw (y # ys) \<longleftrightarrow> (\<exists>ss. y # ys = kw @ ss) \<or> substring kw ys"
  proof
    assume "substring kw (y # ys)"
    then obtain ps ss where eq: "y # ys = ps @ kw @ ss"
      by (auto simp: substring_def)
    show "(\<exists>ss. y # ys = kw @ ss) \<or> substring kw ys"
    proof (cases ps)
      case Nil
      with eq show ?thesis by auto
    next
      case (Cons p ps')
      with eq have "ys = ps' @ kw @ ss" by simp
      then show ?thesis by (auto simp: substring_def)
    qed
  next
    assume "(\<exists>ss. y # ys = kw @ ss) \<or> substring kw ys"
    then show "substring kw (y # ys)"
    proof
      assume "\<exists>ss. y # ys = kw @ ss"
      then obtain ss where "y # ys = [] @ kw @ ss" by auto
      then show ?thesis unfolding substring_def by blast
    next
      assume "substring kw ys"
      then obtain ps ss where "ys = ps @ kw @ ss" by (auto simp: substring_def)
      then have "y # ys = (y # ps) @ kw @ ss" by simp
      then show ?thesis unfolding substring_def by blast
    qed
  qed
  with Cons show ?case
    by (simp add: starts_with_iff)
qed

lemma matches_iff: "matches (py_lower kw) a \<longleftrightarrow> contains_ci kw a"
  by (simp add: matches_def contains_ci_def py_in_iff list_ex_iff)

lemma search_loop_filter: "search_loop kw xs res = res @ filter (matches kw) xs"
  by (induction xs arbitrary: res) simp_all

lemma dropWhile_all: "dropWhile P xs = [] \<longleftrightarrow> list_all P xs"
  by (induction xs) auto

lemma py_strip_empty_iff: "py_strip s = [] \<longleftrightarrow> list_all py_isspace s"
proof
  assume "py_strip s = []"
  then have "dropWhile py_isspace (rev (dropWhile py_isspace s)) = []"
    by (simp add: py_strip_def)
  then have "list_all py_isspace (dropWhile py_isspace s)"
    by (simp add: dropWhile_all list_all_iff)
  moreover have "\<not> py_isspace (hd (dropWhile py_isspace s))" if "dropWhile py_isspace s \<noteq> []"
    using that by (rule hd_dropWhile)
  ultimately have "dropWhile py_isspace s = []"
    by (cases "dropWhile py_isspace s") auto
  then show "list_all py_isspace s"
    by (simp only: dropWhile_all)
next
  assume "list_all py_isspace s"
  then have "dropWhile py_isspace s = []"
    by (simp only: dropWhile_all)
  then show "py_strip s = []"
    by (simp only: py_strip_def rev.simps dropWhile.simps)
qed

lemma heap_add_anime_other:
  "r \<noteq> animes s \<Longrightarrow> heap (snd (add_anime a s)) r = heap s r"
  by (simp add: add_anime_def)

lemma heap_delete_other:
  "r < fresh s \<Longrightarrow> heap (snd (delete_by_title t s)) r = heap s r"
  by (simp add: delete_by_title_def Let_def)

lemma add_anime_refs [simp]:
  "animes (snd (add_anime a s)) = animes s" "fresh (snd (add_anime a s)) = fresh s"
  by (simp_all add: add_anime_def)

lemma xmen_fields [simp]:
  "store xmen_tracker = [sample ''x-men'' [] None]" "animes xmen_tracker = 1" "fresh xmen_tracker = 2"
  by (simp_all add: xmen_tracker_def store_add_anime)

text \<open>
  C5 as stated fails: the keyword is stripped before it is compared.  For the keyword
  \<open>"x "\<close> the search returns the record titled \<open>x-men\<close>, whose title does not contain
  \<open>"x "\<close>.
\<close>

theorem search_strips_keyword:
  "heap (snd (search ''x '' xmen_tracker)) (fst (search ''x '' xmen_tracker))
     = [sample ''x-men'' [] None] \<and>
   \<not> contains_ci ''x '' (sample ''x-men'' [] None)"
proof -
  have "py_lower (py_strip ''x '') = ''x''" "matches ''x'' (sample ''x-men'' [] None)"
    "\<not> matches (py_lower ''x '') (sample ''x-men'' [] None)"
    by code_simp+
  then show ?thesis
    by (simp add: search_def new_list_def flip: matches_iff)
qed

text \<open>
  C5, amended.  \<open>search\<close> returns a list object of its own, different from the one
  \<open>self.animes\<close> refers to, and leaves the store, the file and the trace as they are.  If
  the keyword consists of whitespace only (or is empty) the new list holds every record,
  in store order.  Otherwise it holds, in store order, exactly the records whose title or
  some genre contains the stripped keyword, letter case ignored.  A later \<open>add_anime\<close> or
  \<open>delete_by_title\<close> does not change the list returned.
\<close>

theorem search_spec:
  assumes "allocated s" and "search kw s = (r, s')"
  shows "r \<noteq> animes s' \<and> animes s' = animes s \<and> store s' = store s \<and>
         datafile s' = datafile s \<and> trace s' = trace s \<and>
         heap s' r = (if list_all py_isspace kw then store s
                      else filter (contains_ci (py_strip kw)) (store s)) \<and>
         (\<forall>a. heap (snd (add_anime a s')) r = heap s' r) \<and>
         (\<forall>t. heap (snd (delete_by_title t s')) r = heap s' r)"
proof -
  define res where "res = (if py_lower (py_strip kw) = [] then store s
      else search_loop (py_lower (py_strip kw)) (store s) [])"
  have s': "r = fresh s" "s' = s\<lparr>heap := (heap s)(fresh s := res), fresh := Suc (fresh s)\<rparr>"
    using assms(2) by (auto simp: search_def Let_def new_list_def res_def split: if_splits)
  have ne: "r \<noteq> animes s" "r < fresh s'" "animes s' = animes s"
    using assms(1) by (simp_all add: s' allocated_def)
  have "py_lower (py_strip kw) = [] \<longleftrightarrow> list_all py_isspace kw"
    by (simp add: py_lower_def py_strip_empty_iff)
  then have res: "res = (if list_all py_isspace kw then store s
      else filter (contains_ci (py_strip kw)) (store s))"
    by (simp add: res_def search_loop_filter matches_iff [abs_def])
  have "heap s' r = res" "store s' = store s" "datafile s' = datafile s" "trace s' = trace s"
    using ne(1) by (simp_all add: s' store_def)
  moreover have "heap (snd (add_anime a s')) r = heap s' r" for a
    using ne by (simp add: heap_add_anime_other)
  moreover have "heap (snd (delete_by_title t s')) r = heap s' r" for t
    using ne by (simp add: heap_delete_other)
  ultimately show ?thesis
    using ne res by simp
qed

theorem search_spec_witness:
  "allocated xmen_tracker \<and>
   fst (search ''MEN '' xmen_tracker) \<noteq> animes xmen_tracker \<and>
   heap (snd (search ''MEN '' xmen_tracker)) (fst (search ''MEN '' xmen_tracker))
     = [sample ''x-men'' [] None] \<and>
   heap (snd (add_anime (sample ''Bleach'' [] None) (snd (search ''MEN '' xmen_tracker))))
        (fst (search ''MEN '' xmen_tracker))
     = [sample ''x-men'' [] None]"
proof -
  have a: "allocated xmen_tracker"
    by (simp add: allocated_def)
  have e: "search ''MEN '' xmen_tracker = (fst (search ''MEN '' xmen_tracker), snd (search ''MEN '' xmen_tracker))"
    by simp
  have k: "\<not> list_all py_isspace ''MEN ''" "py_strip ''MEN '' = ''MEN''"
    "matches (py_lower ''MEN'') (sample ''x-men'' [] None)"
    by code_simp+
  from search_spec [OF a e] a k show ?thesis
    by (simp add: matches_iff)
qed

section \<open>Saving and loading again\<close>

lemma code_char_of: "n < 256 \<Longrightarrow> code (char_of n) = n"
  by (simp add: code_def)

lemma code_less: "code c < 256"
  by (simp add: code_def)

lemma isspace_lower_char: "py_isspace (lower_char c) = py_isspace c"
  using code_less [of c] by (auto simp: lower_char_def py_isspace_def code_char_of)

lemma lower_char_idem: "lower_char (lower_char c) = lower_char c"
  using code_less [of c] by (auto simp: lower_char_def code_char_of)

lemma py_lower_idem: "py_lower (py_lower s) = py_lower s"
  by (simp add: py_lower_def lower_char_idem)

lemma last_dropWhile_nonempty: "dropWhile P xs \<noteq> [] \<Longrightarrow> last (dropWhile P xs) = last xs"
proof -
  assume ne: "dropWhile P xs \<noteq> []"
  have "last xs = last (takeWhile P xs @ dropWhile P xs)" by simp
  also have "\<dots> = last (dropWhile P xs)" using ne by (rule last_appendR)
  finally show ?thesis by simp
qed

lemma stripped_strip: "stripped (py_strip s)"
proof -
  define t where "t = dropWhile py_isspace s"
  define u where "u = dropWhile py_isspace (rev t)"
  have eq: "py_strip s = rev u" by (simp add: py_strip_def t_def u_def)
  show ?thesis
  proof (cases "u = []")
    case True
    with eq show ?thesis by (simp add: stripped_def)
  next
    case False
    then have hu: "\<not> py_isspace (hd u)"
      unfolding u_def by (rule hd_dropWhile)
    from False have "last u = last (rev t)"
      unfolding u_def by (rule last_dropWhile_nonempty)
    moreover from False have tne: "t \<noteq> []" by (auto simp: u_def)
    ultimately have "last u = hd t" by (simp add: last_rev)
    moreover from tne have "\<not> py_isspace (hd t)"
      unfolding t_def by (rule hd_dropWhile)
    ultimately show ?thesis
      using False hu eq by (simp add: stripped_def hd_rev last_rev)
  qed
qed

lemma strip_stripped: "stripped s \<Longrightarrow> py_strip s = s"
proof (cases "s = []")
  case True
  then show ?thesis by (simp add: py_strip_def)
next
  case False
  assume "stripped s"
  with False have h: "\<not> py_isspace (hd s)" and l: "\<not> py_isspace (last s)"
    by (simp_all add: stripped_def)
  from h False have 1: "dropWhile py_isspace s = s"
    by (simp add: dropWhile_eq_self_iff)
  from l False have 2: "dropWhile py_isspace (rev s) = rev s"
    by (simp add: dropWhile_eq_self_iff hd_rev)
  show ?thesis by (simp add: py_strip_def 1 2)
qed

lemma stripped_lower: "stripped s \<Longrightarrow> stripped (py_lower s)"
  by (auto simp: stripped_def py_lower_def hd_map last_map isspace_lower_char)

lemma py_strip_idem: "py_strip (py_strip s) = py_strip s"
  by (simp add: strip_stripped stripped_strip)

lemma strip_all_normal:
  "strip_all xs = Inr gs \<Longrightarrow> list_all (\<lambda>g. stripped g \<and> g \<noteq> []) gs"
proof (induction xs arbitrary: gs)
  case Nil
  then show ?case by simp
next
  case (Cons x xs)
  from Cons.prems obtain t ts where t: "str_strip x = Inr t" and ts: "strip_all xs = Inr ts"
    and gs: "gs = (if t \<noteq> [] then t # ts else ts)"
    by (auto simp: bind_eq_Inr)
  from t have "stripped t"
    by (cases x) (auto simp: stripped_strip)
  with Cons.IH [OF ts] gs show ?case by simp
qed

lemma init_rating_range:
  assumes "init_rating r = Inr (Some n)"
  shows "0 \<le> n \<and> n \<le> 5"
proof -
  from assms obtain k where k: "py_int r = Inr k" and *: "0 \<le> k \<and> k \<le> 5" and "n = k"
    by (cases "py_int r") (auto simp: init_rating_def split: if_splits)
  then show ?thesis by simp
qed

lemma Anime_init_normal:
  assumes "Anime_init t y g s r = Inr a"
  shows "normal a"
proof -
  from assms obtain t' y' g' s' r' where
    t: "init_title t = Inr t'" and g: "init_genres g = Inr g'" and s: "init_status s = Inr s'"
    and r: "init_rating r = Inr r'"
    and a: "a = \<lparr>title = t', year = y', genres = g', status = s', rating = r'\<rparr>"
    unfolding Anime_init_Inr by blast
  from t have 1: "stripped t'"
    by (cases t) (auto simp: init_title_def stripped_strip)
  from g have 2: "list_all (\<lambda>g. stripped g \<and> g \<noteq> []) g'"
    by (auto simp: init_genres_def bind_eq_Inr dest: strip_all_normal)
  have planned: "stripped ''planned''" "py_lower ''planned'' = ''planned''"
    by code_simp+
  from s have 3: "stripped s' \<and> py_lower s' = s'"
    by (cases s)
      (auto simp: init_status_def planned stripped_lower stripped_strip py_lower_idem
        split: if_splits)
  from r have 4: "case r' of None \<Rightarrow> True | Some n \<Rightarrow> 0 \<le> n \<and> n \<le> 5"
    by (cases r') (auto dest: init_rating_range)
  from 1 2 3 4 show ?thesis
    by (simp add: normal_def a)
qed

lemma strip_all_stripped:
  "list_all (\<lambda>g. stripped g \<and> g \<noteq> []) gs \<Longrightarrow> strip_all (map PStr gs) = Inr gs"
  by (induction gs) (simp_all add: strip_stripped)

lemma init_rating_small:
  assumes "0 \<le> n" "n \<le> 5"
  shows "init_rating (PInt n) = Inr (Some n)"
proof -
  from assms have "n = 0 \<or> n = 1 \<or> n = 2 \<or> n = 3 \<or> n = 4 \<or> n = 5"
    by arith
  moreover have "init_rating (PInt 0) = Inr (Some 0)" "init_rating (PInt 1) = Inr (Some 1)"
    "init_rating (PInt 2) = Inr (Some 2)" "init_rating (PInt 3) = Inr (Some 3)"
    "init_rating (PInt 4) = Inr (Some 4)" "init_rating (PInt 5) = Inr (Some 5)"
    by code_simp+
  ultimately show ?thesis by auto
qed

lemma init_rating_None: "init_rating PNone = Inr None"
  by code_simp

lemma from_dict_to_dict:
  assumes "normal a" and "year a \<noteq> Some 0" and "status a \<noteq> []"
  shows "from_dict (to_dict a) = Inr a"
proof -
  have t: "init_title (PStr (title a)) = Inr (title a)"
    using assms(1) by (simp add: init_title_def normal_def strip_stripped)
  have y: "init_year (case year a of None \<Rightarrow> PNone | Some n \<Rightarrow> PInt n) = Inr (year a)"
    using assms(2) by (cases "year a") (simp_all add: init_year_def)
  have g: "init_genres (PList (map PStr (genres a))) = Inr (genres a)"
    using assms(1) by (simp add: init_genres_def normal_def strip_all_stripped)
  have s: "init_status (PStr (status a)) = Inr (status a)"
    using assms(1,3) by (simp add: init_status_def normal_def strip_stripped)
  have r: "init_rating (case rating a of None \<Rightarrow> PNone | Some n \<Rightarrow> PInt n) = Inr (rating a)"
    using assms(1) by (cases "rating a") (simp_all add: normal_def init_rating_None init_rating_small)
  show ?thesis
    by (simp add: to_dict_def dict_get_def Anime_init_def t y g s r)
qed

lemma from_dicts_to_dict:
  "list_all (\<lambda>a. normal a \<and> year a \<noteq> Some 0 \<and> status a \<noteq> []) xs \<Longrightarrow>
   from_dicts (map to_dict xs) = Inr xs"
  by (induction xs) (simp_all add: from_dict_to_dict)

lemma built_normal: "built s \<Longrightarrow> list_all normal (store s)"
proof (induction rule: built.induct)
  case (start f w s)
  then show ?case by simp
next
  case (add s t y g st r a)
  then show ?case
    by (auto simp: store_add_anime dest: Anime_init_normal)
qed

lemma load_saved:
  assumes "writable s" and "from_dicts (map to_dict (store s)) = Inr xs"
  shows "load (save s) = Inr (assign_animes xs (save s))"
  using assms by (simp add: load_def save_writable)

lemma load_after_save:
  assumes "writable s" and "list_all (\<lambda>a. normal a \<and> year a \<noteq> Some 0 \<and> status a \<noteq> []) (store s)"
  shows "load (save s) = Inr (assign_animes (store s) (save s))"
  using assms by (simp add: load_saved from_dicts_to_dict)

lemma akira_zero:
  "Anime_init (PStr ''Akira'') (PStr ''0'') PNone PNone PNone = Inr ((sample ''Akira'' [] None)\<lparr>year := Some 0\<rparr>)"
  by code_simp

lemma zero_year_tracker_eq:
  "zero_year_tracker = snd (add_anime ((sample ''Akira'' [] None)\<lparr>year := Some 0\<rparr>) after_start)"
  by (simp add: zero_year_tracker_def akira_zero)

lemma zero_year_store: "store zero_year_tracker = [(sample ''Akira'' [] None)\<lparr>year := Some 0\<rparr>]"
  by (simp add: zero_year_tracker_eq store_add_anime)

lemma zero_year_writable: "writable zero_year_tracker"
  by (simp add: zero_year_tracker_eq add_anime_def)

lemma zero_year_built: "built zero_year_tracker"
  unfolding zero_year_tracker_eq
  by (rule built.add [OF built.start [OF started] akira_zero]) simp

text \<open>
  C9 as stated fails.  \<open>Anime("Akira", "0")\<close> has the year 0; added to a fresh tracker it
  is written as \<open>"year": 0\<close>, and \<open>load\<close> hands the integer 0 to the constructor, which
  takes it for no year: the loaded record has no year.
\<close>

theorem zero_year_lost:
  "built zero_year_tracker \<and>
   store zero_year_tracker = [(sample ''Akira'' [] None)\<lparr>year := Some 0\<rparr>] \<and>
   map_sum id store (load (save zero_year_tracker)) = Inr [sample ''Akira'' [] None]"
proof -
  have "from_dict (to_dict ((sample ''Akira'' [] None)\<lparr>year := Some 0\<rparr>)) = Inr (sample ''Akira'' [] None)"
    by code_simp
  then have "from_dicts (map to_dict (store zero_year_tracker)) = Inr [sample ''Akira'' [] None]"
    by (simp add: zero_year_store)
  with zero_year_writable have "load (save zero_year_tracker) =
      Inr (assign_animes [sample ''Akira'' [] None] (save zero_year_tracker))"
    by (rule load_saved)
  then show ?thesis
    using zero_year_built zero_year_store by simp
qed

text \<open>
  C9, amended.  Take a tracker that started empty and was changed by \<open>add_anime\<close> only,
  with records the constructor returned, none of them with the year 0 or with an empty
  status, and let the file be writable.  Then \<open>save\<close> followed by \<open>load\<close> returns, and the
  store it leaves is the store saved: the same records, field for field, in the same
  order.
\<close>

theorem save_load_roundtrip:
  assumes "built s" and "writable s"
    and "\<forall>a \<in> set (store s). year a \<noteq> Some 0 \<and> status a \<noteq> []"
  shows "map_sum id store (load (save s)) = Inr (store s)"
proof -
  from assms(1) have "list_all normal (store s)"
    by (rule built_normal)
  with assms(3) have "list_all (\<lambda>a. normal a \<and> year a \<noteq> Some 0 \<and> status a \<noteq> []) (store s)"
    by (simp add: list_all_iff)
  with assms(2) have "load (save s) = Inr (assign_animes (store s) (save s))"
    by (rule load_after_save)
  then show ?thesis by simp
qed

lemma naruto_constructed:
  "Anime_init (PStr '' Naruto '') (PStr ''2002'') (PList [PStr ''Action'']) (PStr ''Watching'') (PInt 5)
     = Inr naruto"
  by code_simp

lemma naruto_tracker_fields:
  "store naruto_tracker = [naruto]" "writable naruto_tracker" "built naruto_tracker"
proof -
  show "store naruto_tracker = [naruto]"
    by (simp add: naruto_tracker_def store_add_anime)
  show "writable naruto_tracker"
    by (simp add: naruto_tracker_def add_anime_def)
  show "built naruto_tracker"
    unfolding naruto_tracker_def
    by (rule built.add [OF built.start [OF started] naruto_constructed]) simp
qed

theorem save_load_roundtrip_witness:
  "built naruto_tracker \<and> writable naruto_tracker \<and> store naruto_tracker = [naruto] \<and>
   map_sum id store (load (save naruto_tracker)) = Inr [naruto]"
proof -
  have "\<forall>a \<in> set (store naruto_tracker). year a \<noteq> Some 0 \<and> status a \<noteq> []"
    by (simp add: naruto_tracker_fields naruto_def)
  from save_load_roundtrip [OF naruto_tracker_fields(3,2) this] show ?thesis
    by (simp add: naruto_tracker_fields)
qed

section \<open>Where the rating test lets an error through\<close>

text \<open>
  The constructor raises on a rating only when the string form of the rating holds a
  character that \<open>str.isdigit\<close> accepts and that is no decimal digit.
\<close>

lemma parse_digits_decimal:
  "list_all is_decimal s \<Longrightarrow> s \<noteq> [] \<or> \<not> need \<Longrightarrow> \<exists>n. parse_digits s need acc = Some n"
  by (induction s arbitrary: need acc) auto

lemma decimal_not_space: "is_decimal c \<Longrightarrow> \<not> py_isspace c"
  by (auto simp: is_decimal_def py_isspace_def)

lemma decimal_not_sign: "is_decimal c \<Longrightarrow> c \<noteq> CHR ''-'' \<and> c \<noteq> CHR ''+''"
  by (auto simp: is_decimal_def code_def)

lemma int_of_str_decimal:
  assumes "list_all is_decimal s" and "s \<noteq> []"
  shows "\<exists>n. int_of_str s = Inr n"
proof -
  from assms have "is_decimal (hd s)" "is_decimal (last s)"
    by (simp_all add: list_all_iff)
  with assms(2) have st: "py_strip s = s" and sg: "hd s \<noteq> CHR ''-''" "hd s \<noteq> CHR ''+''"
    by (simp_all add: strip_stripped stripped_def decimal_not_space decimal_not_sign)
  from assms obtain n where "parse_digits s True 0 = Some n"
    using parse_digits_decimal [of s True 0] by auto
  with st sg assms(2) show ?thesis
    by (simp add: int_of_str_def)
qed

lemma bracket_not_digit: "\<not> isdigit_char CHR ''[''" "\<not> isdigit_char CHR ''{''"
  by code_simp+

lemma words_not_digit: "\<not> py_isdigit ''None''" "\<not> py_isdigit ''True''" "\<not> py_isdigit ''False''"
  by code_simp+

lemma init_rating_raises_only_on_superscript:
  assumes "init_rating r = Inl e"
  shows "\<exists>c \<in> set (py_str r). isdigit_char c \<and> \<not> is_decimal c"
proof -
  from assms have d: "py_isdigit (py_str r)" and i: "\<exists>e'. py_int r = Inl e'"
    by (auto simp: init_rating_def bind_def split: if_splits sum.splits)
  show ?thesis
  proof (cases r)
    case (PStr s)
    with d have s: "s \<noteq> []" "list_all isdigit_char s"
      by (simp_all add: py_isdigit_def)
    have "\<not> list_all is_decimal s"
      using int_of_str_decimal [OF _ s(1)] i PStr by auto
    with s(2) PStr show ?thesis
      by (auto simp: list_all_iff)
  next
    case PNone
    with d show ?thesis by (simp add: words_not_digit)
  next
    case (PBool b)
    with d show ?thesis by (cases b) (simp_all add: words_not_digit)
  next
    case (PInt n)
    with i show ?thesis by simp
  next
    case (PList xs)
    with d show ?thesis by (simp add: py_isdigit_def bracket_not_digit)
  next
    case (PDict kvs)
    with d show ?thesis by (simp add: py_isdigit_def bracket_not_digit)
  qed
qed


section \<open>Counting genres\<close>

lemma first_seen_snoc:
  "first_seen (xs @ [g]) = (if g \<in> set xs then first_seen xs else first_seen xs @ [g])"
  by (simp add: first_seen_def)

lemma set_first_seen [simp]: "set (first_seen xs) = set xs"
  by (simp add: first_seen_def)

lemma distinct_first_seen [simp]: "distinct (first_seen xs)"
  by (simp add: first_seen_def)

lemma counter_incr_map:
  "distinct ks \<Longrightarrow>
   counter_incr g (map (\<lambda>k. (k, f k)) ks) =
     (if g \<in> set ks then map (\<lambda>k. (k, if k = g then f k + 1 else f k)) ks
      else map (\<lambda>k. (k, f k)) ks @ [(g, 1)])"
  by (induction ks) auto

lemma count_list_snoc: "count_list (xs @ [g]) k = count_list xs k + (if k = g then 1 else 0)"
  by (induction xs) simp_all

lemma counter_incr_counts_of: "counter_incr g (counts_of xs) = counts_of (xs @ [g])"
proof (cases "g \<in> set xs")
  case True
  then show ?thesis
    by (simp add: counts_of_def counter_incr_map first_seen_snoc count_list_snoc)
next
  case False
  then have "count_list xs g = 0" by (simp add: count_list_0_iff)
  with False show ?thesis
    by (auto simp: counts_of_def counter_incr_map first_seen_snoc count_list_snoc)
qed

lemma counter_update_counts_of: "counter_update (counts_of ys) xs = counts_of (ys @ xs)"
proof (induction xs arbitrary: ys)
  case Nil
  then show ?case by (simp add: counter_update_def)
next
  case (Cons x xs)
  have "counter_update (counts_of ys) (x # xs) = counter_update (counts_of (ys @ [x])) xs"
    by (simp add: counter_update_def counter_incr_counts_of)
  with Cons [of "ys @ [x]"] show ?case by simp
qed

lemma counts_of_Nil [simp]: "counts_of [] = []"
  by (simp add: counts_of_def first_seen_def)

lemma genre_fold:
  "fold (\<lambda>a c. counter_update c (genres a)) as (counts_of ys) = counts_of (ys @ all_genres as)"
  by (induction as arbitrary: ys) (simp_all add: all_genres_def counter_update_counts_of)

lemma genre_counter_eq: "genre_counter as = counts_of (all_genres as)"
  using genre_fold [of as "[]"] by (simp add: genre_counter_def)

lemma liked_fold:
  "fold (\<lambda>a c. case rating a of None \<Rightarrow> c | Some r \<Rightarrow> if 4 \<le> r then counter_update c (genres a) else c)
     as (counts_of ys) = counts_of (ys @ all_genres (filter likes as))"
  by (induction as arbitrary: ys)
    (simp_all add: all_genres_def counter_update_counts_of likes_def split: option.splits)

lemma liked_counter_eq: "liked_counter as = counts_of (all_genres (filter likes as))"
  using liked_fold [of as "[]"] by (simp add: liked_counter_def)

lemma insort_key_stable:
  assumes "sorted (map f ys)"
    and "sorted_wrt (\<lambda>a b. f a < f b \<or> (f a = f b \<and> Q a b)) ys"
    and "\<forall>y \<in> set ys. Q x y"
  shows "sorted_wrt (\<lambda>a b. f a < f b \<or> (f a = f b \<and> Q a b)) (insort_key f x ys)"
  using assms by (induction ys) (auto simp: set_insort_key)

lemma sort_key_stable_wrt:
  "sorted_wrt Q xs \<Longrightarrow> sorted_wrt (\<lambda>a b. f a < f b \<or> (f a = f b \<and> Q a b)) (sort_key f xs)"
proof (induction xs)
  case Nil
  then show ?case by simp
next
  case (Cons x xs)
  then show ?case
    by (auto intro!: insort_key_stable)
qed

lemma first_index_snoc:
  "h \<in> set xs \<Longrightarrow> first_index (xs @ [g]) h = first_index xs h"
  by (simp add: first_index_def)

lemma first_index_less: "h \<in> set xs \<Longrightarrow> first_index xs h < length xs"
  by (induction xs) (auto simp: first_index_def)

lemma first_index_new: "g \<notin> set xs \<Longrightarrow> first_index (xs @ [g]) g = length xs"
  by (induction xs) (auto simp: first_index_def)

lemma first_seen_sorted:
  "sorted_wrt (\<lambda>g h. first_index gs g < first_index gs h) (first_seen gs)"
proof (induction gs rule: rev_induct)
  case Nil
  show ?case by (simp add: first_seen_def)
next
  case (snoc g xs)
  have old: "sorted_wrt (\<lambda>a b. first_index (xs @ [g]) a < first_index (xs @ [g]) b) (first_seen xs)"
    by (rule sorted_wrt_mono_rel [OF _ snoc]) (simp add: first_index_snoc)
  show ?case
  proof (cases "g \<in> set xs")
    case True
    with old show ?thesis by (simp add: first_seen_snoc)
  next
    case False
    with old show ?thesis
      by (auto simp: first_seen_snoc sorted_wrt_append first_index_snoc first_index_new first_index_less)
  qed
qed

lemma counts_of_snd: "p \<in> set (counts_of gs) \<Longrightarrow> snd p = count_list gs (fst p)"
  by (auto simp: counts_of_def)

lemma map_fst_counts_of [simp]: "map fst (counts_of gs) = first_seen gs"
  by (simp add: counts_of_def comp_def)

lemma counts_of_empty_iff: "counts_of gs = [] \<longleftrightarrow> gs = []"
proof -
  have "counts_of gs = [] \<longleftrightarrow> first_seen gs = []"
    by (simp add: counts_of_def)
  also have "\<dots> \<longleftrightarrow> set (first_seen gs) = {}"
    by (simp only: set_empty)
  also have "\<dots> \<longleftrightarrow> gs = []"
    by simp
  finally show ?thesis .
qed

lemma set_most_common [simp]: "set (most_common c) = set c"
  by (simp add: most_common_def)

lemma most_common_keys: "set (map fst (most_common (counts_of gs))) = set gs"
proof -
  have "set (map fst (most_common (counts_of gs))) = set (map fst (counts_of gs))"
    by (simp only: set_map set_most_common)
  also have "\<dots> = set gs"
    by (simp only: map_fst_counts_of set_first_seen)
  finally show ?thesis .
qed

lemma most_common_distinct: "distinct (map fst (most_common (counts_of gs)))"
proof -
  have "distinct (map fst (counts_of gs))" by simp
  then have "distinct (counts_of gs)" "inj_on fst (set (counts_of gs))"
    by (simp_all only: distinct_map)
  then have "distinct (most_common (counts_of gs))" "inj_on fst (set (most_common (counts_of gs)))"
    by (simp_all add: most_common_def)
  then show ?thesis by (simp only: distinct_map)
qed

lemma most_common_counts:
  "most_common (counts_of gs) =
     map (\<lambda>g. (g, count_list gs g)) (map fst (most_common (counts_of gs)))"
proof -
  have "map (\<lambda>p. (fst p, count_list gs (fst p))) (most_common (counts_of gs)) =
      most_common (counts_of gs)"
    by (rule map_idI) (simp add: counts_of_snd [symmetric])
  then show ?thesis by (simp add: comp_def)
qed

lemma most_common_ranked:
  "sorted_wrt (ranks_before gs) (map fst (most_common (counts_of gs)))"
proof -
  let ?f = "\<lambda>(g, n). - int n" and ?Q = "\<lambda>a b. first_index gs (fst a) < first_index gs (fst b)"
  have "sorted_wrt ?Q (counts_of gs)"
    using first_seen_sorted [of gs] by (simp add: counts_of_def sorted_wrt_map)
  then have "sorted_wrt (\<lambda>a b. ?f a < ?f b \<or> (?f a = ?f b \<and> ?Q a b)) (most_common (counts_of gs))"
    unfolding most_common_def by (rule sort_key_stable_wrt)
  then have "sorted_wrt (\<lambda>a b. ranks_before gs (fst a) (fst b)) (most_common (counts_of gs))"
  proof (rule sorted_wrt_mono_rel [rotated])
    fix a b
    assume "a \<in> set (most_common (counts_of gs))" "b \<in> set (most_common (counts_of gs))"
    then have "snd a = count_list gs (fst a)" "snd b = count_list gs (fst b)"
      by (simp_all add: counts_of_snd)
    moreover assume "?f a < ?f b \<or> (?f a = ?f b \<and> ?Q a b)"
    ultimately show "ranks_before gs (fst a) (fst b)"
      by (cases a; cases b) (auto simp: ranks_before_def)
  qed
  then show ?thesis by (simp add: sorted_wrt_map)
qed

section \<open>Rounding\<close>

lemma round_half_even_near: "\<bar>of_int (round_half_even x) - x\<bar> \<le> 1 / 2"
proof -
  have "of_int \<lfloor>x\<rfloor> \<le> x" "x < of_int \<lfloor>x\<rfloor> + 1"
    by linarith+
  then show ?thesis
    by (auto simp: round_half_even_def Let_def)
qed

lemma pow2_powi: "pow2 e = 2 powi e"
  by (simp add: pow2_def power_int_def inverse_eq_divide power_one_over)

lemma pow2_pos: "0 < pow2 e"
  by (simp add: pow2_powi)

lemma floor_log2_le:
  assumes "0 < a" "0 < b"
  shows "pow2 (floor_log2 a b) \<le> of_int a / of_int b"
proof (cases "pow2 (bitlen a - bitlen b) \<le> of_int a / of_int b")
  case True
  then show ?thesis by (simp add: floor_log2_def)
next
  case False
  have la: "(2::int) ^ nat (bitlen a - 1) \<le> a" and lb: "b < 2 ^ nat (bitlen b)"
    using bitlen_bounds [OF assms(1)] bitlen_bounds [OF assms(2)] by simp_all
  have pa: "1 \<le> bitlen a" using assms(1) by (simp add: bitlen_alt_def)
  have pb: "0 \<le> bitlen b" by (rule bitlen_nonneg)
  have "(of_int (2 ^ nat (bitlen a - 1)) :: rat) \<le> of_int a"
    using la by (simp only: of_int_le_iff)
  then have la': "(2::rat) powi (bitlen a - 1) \<le> of_int a"
    using pa by (simp add: power_int_def)
  have "(of_int b :: rat) \<le> of_int (2 ^ nat (bitlen b))"
    using lb by (simp only: of_int_le_iff)
  then have lb': "of_int b \<le> (2::rat) powi (bitlen b)"
    using pb by (simp add: power_int_def)
  have "bitlen a - bitlen b - 1 = (bitlen a - 1) - bitlen b" by simp
  then have "pow2 (bitlen a - bitlen b - 1) = 2 powi (bitlen a - 1) / 2 powi (bitlen b)"
    by (simp only: pow2_powi) (simp add: power_int_diff)
  also have "\<dots> \<le> of_int a / of_int b"
    using la' lb' assms by (intro frac_le) simp_all
  finally show ?thesis
    using False by (simp add: floor_log2_def)
qed

lemma to_double_near: "\<bar>to_double x - x\<bar> \<le> \<bar>x\<bar> / 2 ^ 53"
proof (cases "x = 0")
  case True
  then show ?thesis by (simp add: to_double_def)
next
  case False
  obtain a b where ab: "quotient_of \<bar>x\<bar> = (a, b)" by (cases "quotient_of \<bar>x\<bar>")
  then have b: "0 < b" and x: "\<bar>x\<bar> = of_int a / of_int b"
    by (auto dest: quotient_of_denom_pos quotient_of_div)
  from False have "0 < \<bar>x\<bar>" by simp
  with x b have a: "0 < a"
    by (simp add: zero_less_divide_iff)
  define e where "e = floor_log2 a b - 52"
  define m where "m = round_half_even (\<bar>x\<bar> / pow2 e)"
  have td: "to_double x = sgn x * of_int m * pow2 e"
    using False by (simp add: to_double_def ab e_def m_def Let_def)
  have "sgn x * (of_int m * pow2 e - \<bar>x\<bar>) = to_double x - sgn x * \<bar>x\<bar>"
    by (simp add: td algebra_simps)
  then have "\<bar>to_double x - x\<bar> = \<bar>sgn x * (of_int m * pow2 e - \<bar>x\<bar>)\<bar>"
    by (simp only: sgn_mult_abs)
  also have "\<dots> = \<bar>of_int m * pow2 e - \<bar>x\<bar>\<bar>"
    using False by (simp add: abs_mult abs_sgn_eq)
  also have "\<dots> = pow2 e * \<bar>of_int m - \<bar>x\<bar> / pow2 e\<bar>"
    using pow2_pos [of e] by (simp add: abs_mult_pos' field_simps flip: abs_mult)
  also have "\<dots> \<le> pow2 e * (1 / 2)"
    using pow2_pos [of e] round_half_even_near [of "\<bar>x\<bar> / pow2 e"]
    unfolding m_def by (intro mult_left_mono) simp_all
  also have "\<dots> = pow2 (floor_log2 a b) / 2 ^ 53"
    by (simp add: e_def pow2_powi power_int_diff)
  also have "\<dots> \<le> \<bar>x\<bar> / 2 ^ 53"
    using floor_log2_le [OF a b] x by (simp add: divide_right_mono)
  finally show ?thesis .
qed


section \<open>Statistics\<close>

lemma present_ratings_map:
  "present_ratings as = map the (filter (\<lambda>r. r \<noteq> None) (map rating as))"
  by (simp add: present_ratings_def filter_map comp_def)

lemma py_round2_near:
  "\<bar>of_int (round_half_even (x * 100)) / 100 - x\<bar> \<le> 1 / 200"
proof -
  have "\<bar>of_int (round_half_even (x * 100)) - x * 100\<bar> \<le> 1 / 2"
    by (rule round_half_even_near)
  then show ?thesis by (simp add: field_simps abs_if split: if_splits)
qed

lemma py_truediv_near:
  "\<bar>py_truediv (sum_list rs) (int (length rs)) - mean rs\<bar> \<le> \<bar>mean rs\<bar> / 2 ^ 53"
  unfolding py_truediv_def mean_def by (rule to_double_near)

lemma top_genres_eq:
  "snd (snd (stats s)) =
     take 3 (map (\<lambda>g. (g, count_list (all_genres (store s)) g))
               (map fst (most_common (counts_of (all_genres (store s))))))"
proof -
  have "snd (snd (stats s)) = take 3 (most_common (counts_of (all_genres (store s))))"
    by (simp add: stats_def Let_def most_common_n_def genre_counter_eq)
  then show ?thesis
    using most_common_counts [of "all_genres (store s)"] by simp
qed

lemma sample_average: "py_round2 (py_truediv 16 4) = 4"
  by code_simp

lemma sample_top:
  "take 3 (most_common (counts_of [''A'', ''A'', ''B'', ''B'', ''C'', ''A''])) =
     [(''A'', 3), (''B'', 2), (''C'', 1)]"
  by code_simp

text \<open>
  C6.  \<open>stats\<close> returns the number of records; no average when no record has a rating,
  and otherwise the double nearest to a decimal with two places that lies within half a
  hundredth of the quotient computed, which is the average of the present ratings up to
  the rounding of one floating-point division; and the first three of the genres ordered
  by descending count, equal counts in the order of first occurrence, each with its
  count over all genre lists.  For ratings 5, 5, 4, none, 2 with genres A; A, B; B; C; A
  the average is 4.0 and the genres are A with 3, B with 2 and C with 1.
\<close>

theorem stats_spec:
  "\<exists>avg top order q k.
     stats s = (length (store s), avg, top) \<and>
     (present_ratings (store s) = [] \<longrightarrow> avg = None) \<and>
     (present_ratings (store s) \<noteq> [] \<longrightarrow>
        avg = Some (to_double (of_int k / 100)) \<and>
        \<bar>of_int k / 100 - q\<bar> \<le> 1 / 200 \<and>
        \<bar>q - mean (present_ratings (store s))\<bar> \<le> \<bar>mean (present_ratings (store s))\<bar> / 2 ^ 53) \<and>
     distinct order \<and> set order = set (all_genres (store s)) \<and>
     sorted_wrt (ranks_before (all_genres (store s))) order \<and>
     top = take 3 (map (\<lambda>g. (g, count_list (all_genres (store s)) g)) order) \<and>
     (map rating (store s) = [Some 5, Some 5, Some 4, None, Some 2] \<and>
      map genres (store s) = [[''A''], [''A'', ''B''], [''B''], [''C''], [''A'']] \<longrightarrow>
        avg = Some 4 \<and> top = [(''A'', 3), (''B'', 2), (''C'', 1)])"
proof -
  let ?rs = "present_ratings (store s)" and ?gs = "all_genres (store s)"
  define q where "q = py_truediv (sum_list ?rs) (int (length ?rs))"
  define k where "k = round_half_even (q * 100)"
  define avg where "avg = fst (snd (stats s))"
  define top where "top = snd (snd (stats s))"
  define order where "order = map fst (most_common (counts_of ?gs))"
  have c0: "stats s = (length (store s), avg, top)"
    by (simp add: avg_def top_def stats_def Let_def)
  have c1: "?rs = [] \<longrightarrow> avg = None"
    by (simp add: avg_def stats_def Let_def)
  have c2: "?rs \<noteq> [] \<longrightarrow> avg = Some (to_double (of_int k / 100))"
    by (simp add: avg_def stats_def Let_def k_def q_def py_round2_def)
  have c3: "\<bar>of_int k / 100 - q\<bar> \<le> 1 / 200"
    unfolding k_def by (rule py_round2_near)
  have c4: "\<bar>q - mean ?rs\<bar> \<le> \<bar>mean ?rs\<bar> / 2 ^ 53"
    unfolding q_def by (rule py_truediv_near)
  have c5: "distinct order" "set order = set ?gs" "sorted_wrt (ranks_before ?gs) order"
    unfolding order_def
    by (rule most_common_distinct, rule most_common_keys, rule most_common_ranked)
  have c6: "top = take 3 (map (\<lambda>g. (g, count_list ?gs g)) order)"
    unfolding top_def order_def by (rule top_genres_eq)
  have c7: "avg = Some 4 \<and> top = [(''A'', 3), (''B'', 2), (''C'', 1)]"
    if r: "map rating (store s) = [Some 5, Some 5, Some 4, None, Some 2]"
    and g: "map genres (store s) = [[''A''], [''A'', ''B''], [''B''], [''C''], [''A'']]"
  proof -
    from r have rs: "?rs = [5, 5, 4, 2]"
      by (simp add: present_ratings_map)
    from g have gs: "?gs = [''A'', ''A'', ''B'', ''B'', ''C'', ''A'']"
      by (simp add: all_genres_def)
    have "avg = Some (py_round2 (py_truediv 16 4))"
      by (simp add: avg_def stats_def Let_def rs)
    moreover have "top = take 3 (most_common (counts_of [''A'', ''A'', ''B'', ''B'', ''C'', ''A'']))"
      by (simp add: top_def stats_def Let_def most_common_n_def genre_counter_eq gs)
    ultimately show ?thesis
      by (simp only: sample_average sample_top)
  qed
  from c0 c1 c2 c3 c4 c5 c6 c7 show ?thesis
    by blast
qed

lemma five_tracker_store: "store five_tracker = five_rated"
  by code_simp

theorem stats_spec_witness:
  "map rating (store five_tracker) = [Some 5, Some 5, Some 4, None, Some 2] \<and>
   map genres (store five_tracker) = [[''A''], [''A'', ''B''], [''B''], [''C''], [''A'']] \<and>
   stats five_tracker = (5, Some 4, [(''A'', 3), (''B'', 2), (''C'', 1)])"
proof -
  have r: "map rating (store five_tracker) = [Some 5, Some 5, Some 4, None, Some 2]"
    and g: "map genres (store five_tracker) = [[''A''], [''A'', ''B''], [''B''], [''C''], [''A'']]"
    and n: "length (store five_tracker) = 5"
    by (simp_all add: five_tracker_store five_rated_def sample_def)
  from stats_spec [of five_tracker] r g n show ?thesis
    by auto
qed

section \<open>Recommendations\<close>

lemma set_recs_loop:
  "set (recs_loop gs recs) =
     set recs \<union> {r. \<exists>g \<in> set gs. \<exists>ts. map_of CATALOG g = Some ts \<and> r \<in> set ts}"
  by (induction gs arbitrary: recs) (auto split: option.splits)

lemma set_unique_loop:
  "set (unique_loop rs existing unique) = set unique \<union> {r \<in> set rs. py_lower r \<notin> existing}"
  by (induction rs arbitrary: unique) auto

lemma slice_to_empty_iff: "0 < n \<Longrightarrow> slice_to xs n = [] \<longleftrightarrow> xs = []"
  by (simp add: slice_to_def)

lemma set_all_genres_likes:
  "set (all_genres (filter likes as)) = {g. \<exists>a \<in> set as. likes a \<and> g \<in> set (genres a)}"
  by (auto simp: all_genres_def)

lemma liked_counter_empty:
  "\<not> (\<exists>a \<in> set as. likes a) \<Longrightarrow> liked_counter as = []"
proof -
  assume "\<not> (\<exists>a \<in> set as. likes a)"
  then have "filter likes as = []"
    by (simp add: filter_empty_conv)
  then show ?thesis
    by (simp add: liked_counter_eq all_genres_def)
qed

lemma recommend_nonempty_iff:
  assumes "0 < n"
  shows "recommend n s \<noteq> [] \<longleftrightarrow>
    (\<exists>a \<in> set (store s). likes a \<and>
       (\<exists>g \<in> set (genres a). \<exists>ts. map_of CATALOG g = Some ts \<and>
          (\<exists>r \<in> set ts. py_lower r \<notin> (\<lambda>b. py_lower (title b)) ` set (store s))))"
    (is "?lhs \<longleftrightarrow> ?rhs")
proof -
  let ?gs = "all_genres (filter likes (store s))"
  let ?fav = "map fst (most_common (counts_of ?gs))"
  let ?ex = "set (map (\<lambda>a. py_lower (title a)) (store s))"
  let ?unique = "unique_loop (recs_loop ?fav []) ?ex []"
  have fav: "set ?fav = set ?gs"
    by (rule most_common_keys)
  have u: "set ?unique \<noteq> {} \<longleftrightarrow> ?rhs"
    unfolding set_unique_loop set_recs_loop fav set_all_genres_likes by auto
  show ?thesis
  proof (cases "?gs = []")
    case True
    then have "recommend n s = []"
      by (simp add: recommend_def liked_counter_eq counts_of_empty_iff)
    moreover from True have "\<not> ?rhs"
      using set_all_genres_likes [of "store s"] by auto
    ultimately show ?thesis by simp
  next
    case False
    then have "recommend n s = slice_to ?unique n"
      by (simp add: recommend_def liked_counter_eq counts_of_empty_iff Let_def)
    with assms have "?lhs \<longleftrightarrow> set ?unique \<noteq> {}"
      by (simp add: slice_to_empty_iff)
    with u show ?thesis by simp
  qed
qed

lemma comedy_store [simp]:
  "store comedy_tracker = [sample ''Gintama'' [''Comedy''] (Some 5)]"
  by (simp add: comedy_tracker_def store_add_anime)

lemma band_store [simp]:
  "store band_tracker = [sample ''Bocchi'' [''Band''] (Some 5)]"
  by (simp add: band_tracker_def store_add_anime)

text \<open>
  C2 as stated fails: with one record, rated 5, whose only genre is not a key of the
  catalog, a record has a rating of 4 or more and the result is empty.
\<close>

theorem recommend_empty_despite_rating:
  "list_ex likes (store comedy_tracker) \<and> recommend 3 comedy_tracker = []"
proof -
  have "list_ex likes [sample ''Gintama'' [''Comedy''] (Some 5)]"
    by code_simp
  moreover have "recommend 3 comedy_tracker = []"
    by code_simp
  ultimately show ?thesis by simp
qed

text \<open>
  C2, amended.  If no record has a rating of 4 or more, \<open>recommend\<close> returns the empty
  list, whatever the limit.  For a positive limit the result is non-empty exactly when
  some genre of a record rated 4 or more is a key of the catalog and one of the titles
  listed under it is not the title of a record, letter case ignored.
\<close>

theorem recommend_spec:
  "(\<not> (\<exists>a \<in> set (store s). likes a) \<longrightarrow> recommend n s = []) \<and>
   (0 < n \<longrightarrow>
      (recommend n s \<noteq> [] \<longleftrightarrow>
        (\<exists>a \<in> set (store s). likes a \<and>
           (\<exists>g \<in> set (genres a). \<exists>ts. map_of CATALOG g = Some ts \<and>
              (\<exists>r \<in> set ts. py_lower r \<notin> (\<lambda>b. py_lower (title b)) ` set (store s))))))"
proof (intro conjI impI)
  assume "\<not> (\<exists>a \<in> set (store s). likes a)"
  then show "recommend n s = []"
    by (simp add: recommend_def liked_counter_empty)
next
  assume "0 < n"
  then show "recommend n s \<noteq> [] \<longleftrightarrow>
        (\<exists>a \<in> set (store s). likes a \<and>
           (\<exists>g \<in> set (genres a). \<exists>ts. map_of CATALOG g = Some ts \<and>
              (\<exists>r \<in> set ts. py_lower r \<notin> (\<lambda>b. py_lower (title b)) ` set (store s))))"
    by (rule recommend_nonempty_iff)
qed

theorem recommend_spec_witness:
  "\<not> (\<exists>a \<in> set (store after_start). likes a) \<and> recommend 3 after_start = [] \<and>
   (0::int) < 3 \<and> recommend 3 band_tracker \<noteq> [] \<and>
   (\<exists>a \<in> set (store band_tracker). likes a \<and>
      (\<exists>g \<in> set (genres a). \<exists>ts. map_of CATALOG g = Some ts \<and>
         (\<exists>r \<in> set ts. py_lower r \<notin> (\<lambda>b. py_lower (title b)) ` set (store band_tracker))))"
proof -
  have 1: "\<not> (\<exists>a \<in> set (store after_start). likes a)"
    by simp
  have 2: "recommend 3 band_tracker = [''K-ON'', ''MyGO!!!!!'', ''Girls Band Cry'']"
    by code_simp
  from recommend_spec [of after_start 3] recommend_spec [of band_tracker 3] 1 2 show ?thesis
    by simp
qed

end
